theory Spec2Isabelle
  imports Complex_Main "HOL-Library.Word"
begin

section \<open>The sprite-sheet validator \<^verbatim>\<open>scripts/validate_sprites.py\<close>\<close>

text \<open>
  The script checks six fixed sprite sheets: each must exist, be 1024x256 pixels, and
  have at least 1% fully transparent pixels. It prints one line per file and exits with
  0 or 1. The embedding below follows the script top to bottom: the constants, the
  function \<^verbatim>\<open>check\<close>, the function \<^verbatim>\<open>main\<close> with its loop, and the
  module-level call of \<^verbatim>\<open>main\<close>.
\<close>

subsection \<open>Paths and the file system\<close>

text \<open>
  An absolute POSIX path is the list of its components: \<^verbatim>\<open>/a/b\<close> is \<open>[''a'', ''b'']\<close>,
  the root directory is \<open>[]\<close>. The three functions of \<^verbatim>\<open>os.path\<close> the script calls are
  modelled on such lists. \<^verbatim>\<open>abspath\<close> normalises as \<^verbatim>\<open>posixpath.normpath\<close> does on an
  absolute path: empty components and \<^verbatim>\<open>.\<close> are dropped, \<^verbatim>\<open>..\<close> removes the component
  before it and is dropped at the root.
\<close>

type_synonym path = "string list"

definition dirname :: "path \<Rightarrow> path" where
  "dirname p = butlast p"

definition join :: "path \<Rightarrow> string list \<Rightarrow> path" where
  "join p cs = p @ cs"

definition norm_step :: "path \<Rightarrow> string \<Rightarrow> path" where
  "norm_step acc c =
     (if c = '''' \<or> c = ''.'' then acc
      else if c = ''..'' then butlast acc
      else acc @ [c])"

definition abspath :: "path \<Rightarrow> path" where
  "abspath p = foldl norm_step [] p"

text \<open>How a path prints: \<^verbatim>\<open>/\<close> before every component, and \<^verbatim>\<open>/\<close> alone for the root.\<close>

definition render :: "path \<Rightarrow> string" where
  "render p = (if p = [] then ''/'' else concat (map (\<lambda>c. ''/'' @ c) p))"

text \<open>A path whose components are all proper names (already normalised).\<close>

definition normalised :: "path \<Rightarrow> bool" where
  "normalised p = list_all (\<lambda>c. c \<noteq> '''' \<and> c \<noteq> ''.'' \<and> c \<noteq> ''..'') p"

text \<open>
  An image after \<^verbatim>\<open>Image.open(path).convert("RGBA")\<close>: its size and the flattened alpha
  channel, one byte per pixel.
\<close>

record image =
  width :: nat
  height :: nat
  alpha :: "8 word list"

text \<open>
  What the file system holds at a path: nothing, something \<^verbatim>\<open>Image.open\<close> cannot decode
  (a directory, a corrupt file), or a sprite sheet.
\<close>

datatype fentry = Absent | Undecodable | Sheet image

type_synonym filesystem = "path \<Rightarrow> fentry"

datatype error = FileNotFoundError | UnidentifiedImageError

definition path_exists :: "filesystem \<Rightarrow> path \<Rightarrow> bool" where
  "path_exists fs p = (fs p \<noteq> Absent)"

subsection \<open>Constants of the script (lines 5 to 21)\<close>

definition FILES :: "string list" where
  "FILES =
     [''toad_idle_right_v1.png'',
      ''toad_jump_right_v1.png'',
      ''toad_land_right_v1.png'',
      ''toad_cashout_right_v1.png'',
      ''toad_jackpot_right_v1.png'',
      ''toad_dead_right_v1.png'']"

text \<open>\<open>file\<close> stands for \<^verbatim>\<open>__file__\<close>, the absolute path of the script.\<close>

definition REPO_ROOT :: "path \<Rightarrow> path" where
  "REPO_ROOT file = abspath (join (dirname file) [''..''])"

definition ROOT :: "path \<Rightarrow> path" where
  "ROOT file =
     join (REPO_ROOT file) [''public'', ''lilypad-leap'', ''sprites'', ''toad'', ''sheets'', ''v1'']"

definition SHEET_W :: nat where "SHEET_W = 1024"
definition SHEET_H :: nat where "SHEET_H = 256"
definition FRAMES :: nat where "FRAMES = 4"
definition FRAME_W :: nat where "FRAME_W = SHEET_W div FRAMES"
definition FRAME_H :: nat where "FRAME_H = SHEET_H"

subsection \<open>String formatting\<close>

text \<open>An integer in an f-string: its decimal digits.\<close>

definition digit :: "nat \<Rightarrow> char" where
  "digit d = ''0123456789'' ! d"

fun str_nat :: "nat \<Rightarrow> string" where
  "str_nat n = (if n < 10 then [digit n] else str_nat (n div 10) @ [digit (n mod 10)])"

declare str_nat.simps [simp del]

text \<open>
  \<^verbatim>\<open>pct\<close> is a Python float. On the only path that computes it the image is 1024x256,
  so \<^verbatim>\<open>total\<close> is \<open>2 ^ 18\<close> and \<^verbatim>\<open>alpha0 / total\<close> is a dyadic rational with a
  numerator below \<open>2 ^ 53\<close>: the double holds it exactly, and so it does the product with
  100 that the \<^verbatim>\<open>%\<close> format computes. The model therefore carries the exact value as a
  \<^typ>\<open>rat\<close>. The literal \<^verbatim>\<open>0.01\<close> is the double nearest to 1/100, which is
  \<open>5764607523034235 / 2 ^ 59\<close>, a little above 1/100.
\<close>

definition float_0_01 :: rat where
  "float_0_01 = 5764607523034235 / 2 ^ 59"

text \<open>Rounding to an integer as the float formatter does: to nearest, ties to even.\<close>

definition round_half_even :: "rat \<Rightarrow> int" where
  "round_half_even y =
     (let q = \<lfloor>y\<rfloor>; r = y - of_int q
      in if r < 1 / 2 then q
         else if 1 / 2 < r then q + 1
         else if even q then q else q + 1)"

text \<open>
  The format specification \<^verbatim>\<open>.d%\<close> applied to a non-negative float \<open>v\<close>: \<open>v\<close> times
  100 in fixed notation with \<open>d\<close> digits after the point, then a percent sign.
\<close>

definition format_percent :: "nat \<Rightarrow> rat \<Rightarrow> string" where
  "format_percent d v =
     (let n = nat (round_half_even (v * 100 * 10 ^ d));
          whole = str_nat (n div 10 ^ d);
          frac = str_nat (n mod 10 ^ d)
      in whole @ (if d = 0 then [] else ''.'' @ replicate (d - length frac) (CHR ''0'') @ frac)
           @ ''%'')"

definition startswith :: "string \<Rightarrow> string \<Rightarrow> bool" where
  "startswith s p = (take (length p) s = p)"

subsection \<open>The function \<^verbatim>\<open>check\<close> (lines 23 to 42)\<close>

text \<open>Lines 25 to 42, on the decoded image.\<close>

definition check_rgba :: "image \<Rightarrow> string" where
  "check_rgba img =
     (let w = width img; h = height img in
      if (w, h) \<noteq> (SHEET_W, SHEET_H) then
        ''FAIL wrong size '' @ str_nat w @ ''x'' @ str_nat h
          @ '' (expected '' @ str_nat SHEET_W @ ''x'' @ str_nat SHEET_H @ '')''
      else if w mod FRAMES \<noteq> 0 then
        ''FAIL width not divisible by '' @ str_nat FRAMES @ '': '' @ str_nat w @ ''x'' @ str_nat h
      else
        let a = alpha img;
            alpha0 = sum_list (map (\<lambda>px. 1) (filter (\<lambda>px. px = 0) a));
            total = w * h;
            pct = (of_nat alpha0 / of_nat total :: rat) in
        if pct < float_0_01 then
          ''FAIL no real transparency (alpha0='' @ format_percent 4 pct @ '')''
        else
          ''OK size='' @ str_nat w @ ''x'' @ str_nat h @ '' alpha0='' @ format_percent 2 pct
            @ '' frame='' @ str_nat FRAME_W @ ''x'' @ str_nat FRAME_H)"

text \<open>Line 24 raises when the file cannot be opened or decoded; otherwise the rest runs.\<close>

definition check :: "filesystem \<Rightarrow> path \<Rightarrow> error + string" where
  "check fs p =
     (case fs p of
        Absent \<Rightarrow> Inl FileNotFoundError
      | Undecodable \<Rightarrow> Inl UnidentifiedImageError
      | Sheet img \<Rightarrow> Inr (check_rgba img))"

subsection \<open>The function \<^verbatim>\<open>main\<close> (lines 44 to 62)\<close>

text \<open>
  The state of a run: the flag \<^verbatim>\<open>ok\<close>, the lines printed so far, and the paths handed
  to \<^verbatim>\<open>Image.open\<close> so far.
\<close>

record run =
  ok :: bool
  out :: "string list"
  opened :: "path list"

text \<open>
  One iteration of the loop (lines 51 to 60). An exception raised by \<^verbatim>\<open>check\<close> is not
  caught: the iteration ends with the error and prints nothing.
\<close>

definition loop_body :: "path \<Rightarrow> filesystem \<Rightarrow> run \<Rightarrow> string \<Rightarrow> run \<times> error option" where
  "loop_body sroot fs st f =
     (let p = join sroot [f] in
      if \<not> path_exists fs p then
        (st\<lparr>out := out st @ [''MISSING '' @ f], ok := False\<rparr>, None)
      else
        (case check fs p of
           Inl e \<Rightarrow> (st\<lparr>opened := opened st @ [p]\<rparr>, Some e)
         | Inr res \<Rightarrow>
             (st\<lparr>opened := opened st @ [p],
                 out := out st @ [f @ '': '' @ res],
                 ok := (if startswith res ''FAIL'' then False else ok st)\<rparr>, None)))"

fun for_loop :: "path \<Rightarrow> filesystem \<Rightarrow> run \<Rightarrow> string list \<Rightarrow> run \<times> error option" where
  "for_loop sroot fs st [] = (st, None)"
| "for_loop sroot fs st (f # rest) =
     (case loop_body sroot fs st f of
        (st', Some e) \<Rightarrow> (st', Some e)
      | (st', None) \<Rightarrow> for_loop sroot fs st' rest)"

text \<open>What \<^verbatim>\<open>main\<close> leaves behind: the final state, and the exception or the argument of
  \<^verbatim>\<open>sys.exit\<close>.\<close>

definition finish :: "run \<times> error option \<Rightarrow> run \<times> (error + int)" where
  "finish r =
     (case r of
        (st, Some e) \<Rightarrow> (st, Inl e)
      | (st, None) \<Rightarrow> (st, Inr (if ok st then 0 else 1)))"

definition header :: "path \<Rightarrow> run" where
  "header file =
     \<lparr>ok = True,
      out = [''Repo root: '' @ render (REPO_ROOT file),
             ''Sprite root: '' @ render (ROOT file),
             replicate 70 (CHR ''-'')],
      opened = []\<rparr>"

definition main :: "path \<Rightarrow> filesystem \<Rightarrow> run \<times> (error + int)" where
  "main file fs = finish (for_loop (ROOT file) fs (header file) FILES)"

text \<open>
  The exit status of the process (lines 64 and 65): the argument of \<^verbatim>\<open>sys.exit\<close>, and 1
  when the interpreter ends on an uncaught exception.
\<close>

definition exit_code :: "run \<times> (error + int) \<Rightarrow> int" where
  "exit_code r = (case snd r of Inl e \<Rightarrow> 1 | Inr c \<Rightarrow> c)"

definition stdout :: "run \<times> (error + int) \<Rightarrow> string list" where
  "stdout r = out (fst r)"

section \<open>Properties of \<^verbatim>\<open>check\<close>\<close>

subsection \<open>Evaluating the formatters\<close>

lemma str_nat_256: "str_nat 256 = ''256''"
  by (simp add: str_nat.simps digit_def)

lemma str_nat_1024: "str_nat 1024 = ''1024''"
  by (simp add: str_nat.simps digit_def)

lemma replicate_numeral_Cons: "replicate (numeral k) x = x # replicate (pred_numeral k) x"
  by (simp add: numeral_eq_Suc)

lemma floor_rat_numeral: "\<lfloor>(numeral a :: rat) / numeral b\<rfloor> = numeral a div numeral b"
  by (metis floor_divide_of_int_eq of_int_numeral)

lemma format_percent_4_zero: "format_percent 4 0 = ''0.0000%''"
  by (simp add: format_percent_def round_half_even_def str_nat.simps digit_def
      replicate_numeral_Cons)

lemma round_2621: "round_half_even (2621 / 262144 * 100 * 10 ^ 4) = 9998"
  by (simp add: round_half_even_def Let_def floor_rat_numeral)

lemma round_2622: "round_half_even (1311 / 131072 * 100 * 10 ^ 2) = 100"
  by (simp add: round_half_even_def Let_def floor_rat_numeral)

lemma format_percent_2621: "format_percent 4 (2621 / 262144) = ''0.9998%''"
  unfolding format_percent_def round_2621
  by (simp add: str_nat.simps digit_def replicate_numeral_Cons)

lemma format_percent_2622: "format_percent 2 (1311 / 131072) = ''1.00%''"
  unfolding format_percent_def round_2622
  by (simp add: str_nat.simps digit_def replicate_numeral_Cons)

subsection \<open>The transparency threshold\<close>

text \<open>The generator expression of line 35 counts the pixels whose alpha is 0.\<close>

lemma alpha0_length: "sum_list (map (\<lambda>px. 1) (filter P xs)) = length (filter P xs)"
  by (induction xs) simp_all

text \<open>
  With 262144 pixels the ratio is below the double \<^verbatim>\<open>0.01\<close> exactly when at most 2621
  pixels are fully transparent, and that is also when it is below the real number 1/100:
  no pixel count falls between the two thresholds.
\<close>

lemma below_float_0_01: "((of_nat k :: rat) / 262144 < float_0_01) = (k \<le> 2621)"
proof -
  have "((of_nat k :: rat) / 262144 < float_0_01)
      = ((of_nat k :: rat) * 2199023255552 < 5764607523034235)"
    by (simp add: float_0_01_def field_simps)
  also have "\<dots> = ((of_nat (k * 2199023255552) :: rat) < of_nat 5764607523034235)"
    by simp
  also have "\<dots> = (k * 2199023255552 < 5764607523034235)"
    by (simp only: of_nat_less_iff)
  also have "\<dots> = (k \<le> 2621)"
    by arith
  finally show ?thesis .
qed

lemma below_one_percent: "((of_nat k :: rat) / 262144 < 1 / 100) = (k \<le> 2621)"
proof -
  have "((of_nat k :: rat) / 262144 < 1 / 100) = ((of_nat (k * 100) :: rat) < of_nat 262144)"
    by (simp add: field_simps)
  also have "\<dots> = (k * 100 < 262144)"
    by (simp only: of_nat_less_iff)
  also have "\<dots> = (k \<le> 2621)"
    by arith
  finally show ?thesis .
qed

text \<open>What \<^verbatim>\<open>check\<close> returns for an image of the required size.\<close>

lemma check_rgba_sized:
  assumes "width img = 1024" and "height img = 256"
  shows "check_rgba img =
    (if length (filter (\<lambda>px. px = 0) (alpha img)) \<le> 2621
     then ''FAIL no real transparency (alpha0=''
            @ format_percent 4 (of_nat (length (filter (\<lambda>px. px = 0) (alpha img))) / 262144)
            @ '')''
     else ''OK size=1024x256 alpha0=''
            @ format_percent 2 (of_nat (length (filter (\<lambda>px. px = 0) (alpha img))) / 262144)
            @ '' frame=256x256'')"
proof -
  have size: "(width img, height img) = (SHEET_W, SHEET_H)" "width img mod FRAMES = 0"
    using assms by (simp_all add: SHEET_W_def SHEET_H_def FRAMES_def)
  have total: "(of_nat (width img * height img) :: rat) = 262144"
    using assms by simp
  have frame: "str_nat FRAME_W = ''256''" "str_nat FRAME_H = ''256''"
    by (simp_all add: FRAME_W_def FRAME_H_def SHEET_W_def SHEET_H_def FRAMES_def str_nat_256)
  have names: "str_nat (width img) = ''1024''" "str_nat (height img) = ''256''"
    using assms by (simp_all add: str_nat_1024 str_nat_256)
  show ?thesis
    unfolding check_rgba_def Let_def alpha0_length total below_float_0_01
    by (simp add: size frame names)
qed

text \<open>Every result of \<^verbatim>\<open>check\<close> starts with \<^verbatim>\<open>OK\<close> or with \<^verbatim>\<open>FAIL\<close>, never both.\<close>

lemma check_rgba_ok_or_fail:
  "startswith (check_rgba img) ''OK'' = (\<not> startswith (check_rgba img) ''FAIL'')"
  by (simp add: check_rgba_def Let_def startswith_def SHEET_W_def SHEET_H_def FRAMES_def)

subsection \<open>The size check\<close>

text \<open>
  Claim C3. For every decoded image whose size is not 1024x256, \<^verbatim>\<open>check\<close> returns
  \<^verbatim>\<open>FAIL wrong size <W>x<H> (expected 1024x256)\<close> with the actual width and height.
  Nothing is assumed about the width's divisibility or about the alpha channel: the size
  check comes first and its failure is what is reported.
\<close>

theorem check_wrong_size:
  "(width img, height img) \<noteq> (1024, 256) \<Longrightarrow>
   check_rgba img =
     ''FAIL wrong size '' @ str_nat (width img) @ ''x'' @ str_nat (height img)
       @ '' (expected 1024x256)''"
  by (simp add: check_rgba_def SHEET_W_def SHEET_H_def str_nat_1024 str_nat_256)

theorem check_wrong_size_witness:
  "check_rgba \<lparr>width = 512, height = 512, alpha = replicate (512 * 512) 0\<rparr>
     = ''FAIL wrong size 512x512 (expected 1024x256)'' \<and>
   check_rgba \<lparr>width = 1022, height = 256, alpha = replicate (1022 * 256) 255\<rparr>
     = ''FAIL wrong size 1022x256 (expected 1024x256)''"
  using check_wrong_size [of "\<lparr>width = 512, height = 512, alpha = replicate (512 * 512) 0\<rparr>"]
    check_wrong_size [of "\<lparr>width = 1022, height = 256, alpha = replicate (1022 * 256) 255\<rparr>"]
  by (simp add: str_nat.simps digit_def)

subsection \<open>The frame-divisibility check\<close>

text \<open>
  Claim C2, as the code has it. For an image of 1023x256 pixels \<^verbatim>\<open>check\<close> returns
  \<^verbatim>\<open>FAIL wrong size 1023x256 (expected 1024x256)\<close>, whatever the pixels are: the size check
  returns before the divisibility check is evaluated, so the divisibility message is not
  produced.
\<close>

theorem check_1023_wrong_size:
  "check_rgba \<lparr>width = 1023, height = 256, alpha = a\<rparr>
     = ''FAIL wrong size 1023x256 (expected 1024x256)''"
  by (simp add: check_rgba_def SHEET_W_def SHEET_H_def str_nat.simps digit_def)

text \<open>The claim as stated fails: the result for a 1023x256 image is not the divisibility
  message.\<close>

theorem check_1023_not_divisibility_message:
  "\<not> startswith
       (check_rgba \<lparr>width = 1023, height = 256, alpha = replicate (1023 * 256) 255\<rparr>)
       ''FAIL width not divisible by 4''"
  by (simp add: check_rgba_def SHEET_W_def SHEET_H_def startswith_def)

text \<open>
  Claim C10. \<^verbatim>\<open>check\<close> never returns the message \<^verbatim>\<open>FAIL width not divisible by 4\<close>:
  no result starts with these words. The branch is reached only with the required size,
  and then the width is a multiple of \<^verbatim>\<open>FRAMES\<close>.
\<close>

theorem check_divisibility_unreachable:
  "\<not> startswith (check_rgba img) ''FAIL width not divisible by'' \<and>
   ((width img, height img) = (SHEET_W, SHEET_H) \<longrightarrow> width img mod FRAMES = 0)"
  by (simp add: check_rgba_def Let_def startswith_def SHEET_W_def SHEET_H_def FRAMES_def)

theorem check_divisibility_unreachable_witness:
  "\<not> startswith (check_rgba \<lparr>width = 1024, height = 256, alpha = replicate (1024 * 256) 7\<rparr>)
       ''FAIL width not divisible by'' \<and>
   (1024, 256) = (SHEET_W, SHEET_H) \<and> 1024 mod FRAMES = 0"
  using check_divisibility_unreachable
    [of "\<lparr>width = 1024, height = 256, alpha = replicate (1024 * 256) 7\<rparr>"]
  by (simp add: SHEET_W_def SHEET_H_def)

subsection \<open>The transparency check\<close>

text \<open>
  Claim C5, as the code has it. For an image of 1024x256 pixels none of which is fully
  transparent, \<^verbatim>\<open>check\<close> returns \<^verbatim>\<open>FAIL no real transparency (alpha0=0.0000%)\<close>: the
  failure message formats the percentage with four decimal places (\<^verbatim>\<open>.4%\<close>), the
  success message with two.
\<close>

theorem check_opaque:
  "width img = 1024 \<Longrightarrow> height img = 256 \<Longrightarrow> \<forall>px \<in> set (alpha img). px \<noteq> 0 \<Longrightarrow>
   check_rgba img = ''FAIL no real transparency (alpha0=0.0000%)''"
  by (simp add: check_rgba_sized filter_False format_percent_4_zero)

theorem check_opaque_witness:
  "check_rgba \<lparr>width = 1024, height = 256, alpha = replicate (1024 * 256) 128\<rparr>
     = ''FAIL no real transparency (alpha0=0.0000%)''"
  using check_opaque [of "\<lparr>width = 1024, height = 256, alpha = replicate (1024 * 256) 128\<rparr>"]
  by simp

text \<open>The claim as stated fails: the result for a fully opaque image is not the message with
  two decimal places.\<close>

theorem check_opaque_not_two_decimals:
  "check_rgba \<lparr>width = 1024, height = 256, alpha = replicate (1024 * 256) 255\<rparr>
     \<noteq> ''FAIL no real transparency (alpha0=0.00%)''"
  by (simp add: check_rgba_sized filter_False format_percent_4_zero)

text \<open>
  Claim C4. For every image of 1024x256 pixels, with \<open>pct\<close> the number of pixels of alpha
  0 divided by 1024 * 256: if \<open>pct < 0.01\<close> then \<^verbatim>\<open>check\<close> returns the transparency
  failure, and if \<open>pct \<ge> 0.01\<close> it returns the success line. Here 0.01 is the real number
  1/100; the code compares with the double \<^verbatim>\<open>0.01\<close>, which decides every pixel count the
  same way.
\<close>

theorem check_transparency_threshold:
  assumes "width img = 1024" and "height img = 256"
  shows "let pct = of_nat (length (filter (\<lambda>px. px = 0) (alpha img))) / of_nat (1024 * 256) :: rat
    in (pct < 1 / 100 \<longrightarrow>
          check_rgba img = ''FAIL no real transparency (alpha0='' @ format_percent 4 pct @ '')'') \<and>
       (1 / 100 \<le> pct \<longrightarrow>
          check_rgba img
            = ''OK size=1024x256 alpha0='' @ format_percent 2 pct @ '' frame=256x256'')"
proof -
  let ?k = "length (filter (\<lambda>px. px = 0) (alpha img))"
  have total: "(of_nat (1024 * 256) :: rat) = 262144"
    by simp
  have ge: "((1::rat) / 100 \<le> of_nat ?k / 262144) = (\<not> ?k \<le> 2621)"
    using below_one_percent [of ?k] by (simp only: not_less [symmetric])
  show ?thesis
    unfolding Let_def total below_one_percent ge
    by (simp add: check_rgba_sized [OF assms])
qed

theorem check_transparency_threshold_witness:
  "check_rgba \<lparr>width = 1024, height = 256, alpha = replicate 2621 0 @ replicate 259523 255\<rparr>
     = ''FAIL no real transparency (alpha0=0.9998%)'' \<and>
   check_rgba \<lparr>width = 1024, height = 256, alpha = replicate 2622 0 @ replicate 259522 255\<rparr>
     = ''OK size=1024x256 alpha0=1.00% frame=256x256''"
  using check_transparency_threshold
      [of "\<lparr>width = 1024, height = 256, alpha = replicate 2621 0 @ replicate 259523 255\<rparr>"]
    check_transparency_threshold
      [of "\<lparr>width = 1024, height = 256, alpha = replicate 2622 0 @ replicate 259522 255\<rparr>"]
  by (simp add: format_percent_2621 format_percent_2622)

section \<open>Properties of \<^verbatim>\<open>main\<close>\<close>

subsection \<open>The loop\<close>

lemma loop_body_missing:
  "\<not> path_exists fs (join sroot [f]) \<Longrightarrow>
   loop_body sroot fs st f = (st\<lparr>out := out st @ [''MISSING '' @ f], ok := False\<rparr>, None)"
  by (simp add: loop_body_def)

lemma check_Inr: "(check fs p = Inr res) = (\<exists>img. fs p = Sheet img \<and> res = check_rgba img)"
  by (auto simp: check_def split: fentry.splits)

lemma for_loop_append:
  "for_loop sroot fs st (xs @ ys) =
     (case for_loop sroot fs st xs of
        (st', Some e) \<Rightarrow> (st', Some e)
      | (st', None) \<Rightarrow> for_loop sroot fs st' ys)"
  by (induction xs arbitrary: st) (auto split: prod.splits option.splits)

lemma loop_body_ok_mono: "ok (fst (loop_body sroot fs st f)) \<Longrightarrow> ok st"
  by (auto simp: loop_body_def Let_def split: sum.splits if_splits)

lemma for_loop_ok_mono: "ok (fst (for_loop sroot fs st fl)) \<Longrightarrow> ok st"
proof (induction fl arbitrary: st)
  case Nil
  then show ?case by simp
next
  case (Cons f fl)
  obtain st' e where lb: "loop_body sroot fs st f = (st', e)"
    by (cases "loop_body sroot fs st f")
  have "ok st'"
    using Cons lb by (cases e) auto
  then show ?case
    using loop_body_ok_mono [of sroot fs st f] lb by simp
qed

lemma loop_body_out: "\<exists>ys. out (fst (loop_body sroot fs st f)) = out st @ ys"
  by (auto simp: loop_body_def Let_def split: sum.splits)

lemma for_loop_out: "\<exists>ys. out (fst (for_loop sroot fs st fl)) = out st @ ys"
proof (induction fl arbitrary: st)
  case Nil
  then show ?case by simp
next
  case (Cons f fl)
  obtain st' e where lb: "loop_body sroot fs st f = (st', e)"
    by (cases "loop_body sroot fs st f")
  obtain ys where ys: "out st' = out st @ ys"
    using loop_body_out [of sroot fs st f] lb by auto
  show ?case
  proof (cases e)
    case None
    obtain zs where "out (fst (for_loop sroot fs st' fl)) = out st' @ zs"
      using Cons.IH [of st'] by auto
    then show ?thesis using lb None ys by simp
  next
    case (Some a)
    then show ?thesis using lb ys by simp
  qed
qed

lemma loop_body_passes:
  "(snd (loop_body sroot fs st f) = None \<and> ok (fst (loop_body sroot fs st f))) =
   (ok st \<and> path_exists fs (join sroot [f]) \<and>
     (\<exists>res. check fs (join sroot [f]) = Inr res \<and> startswith res ''OK''))"
  by (cases "fs (join sroot [f])")
    (auto simp: loop_body_def Let_def check_def check_rgba_ok_or_fail path_exists_def)

lemma for_loop_passes:
  "(snd (for_loop sroot fs st fl) = None \<and> ok (fst (for_loop sroot fs st fl))) =
   (ok st \<and> (\<forall>f \<in> set fl. path_exists fs (join sroot [f]) \<and>
     (\<exists>res. check fs (join sroot [f]) = Inr res \<and> startswith res ''OK'')))"
proof (induction fl arbitrary: st)
  case Nil
  then show ?case by simp
next
  case (Cons f fl)
  obtain st' e where lb: "loop_body sroot fs st f = (st', e)"
    by (cases "loop_body sroot fs st f")
  show ?case
  proof (cases e)
    case None
    have "(ok st') = (ok st \<and> path_exists fs (join sroot [f]) \<and>
       (\<exists>res. check fs (join sroot [f]) = Inr res \<and> startswith res ''OK''))"
      using loop_body_passes [of sroot fs st f] lb None by simp
    then show ?thesis
      using lb None Cons.IH [of st'] by auto
  next
    case (Some a)
    have "\<not> (ok st \<and> path_exists fs (join sroot [f]) \<and>
       (\<exists>res. check fs (join sroot [f]) = Inr res \<and> startswith res ''OK''))"
      using loop_body_passes [of sroot fs st f] lb Some by simp
    then show ?thesis
      using lb Some by auto
  qed
qed

lemma exit_code_finish:
  "exit_code (finish r) = (if snd r = None \<and> ok (fst r) then 0 else 1)"
  by (cases r) (auto simp: exit_code_def finish_def split: option.splits)

lemma loop_body_opened:
  "\<forall>p \<in> set (opened st). path_exists fs p \<Longrightarrow>
   \<forall>p \<in> set (opened (fst (loop_body sroot fs st f))). path_exists fs p"
  by (auto simp: loop_body_def Let_def split: sum.splits)

lemma for_loop_opened:
  "\<forall>p \<in> set (opened st). path_exists fs p \<Longrightarrow>
   \<forall>p \<in> set (opened (fst (for_loop sroot fs st fl))). path_exists fs p"
proof (induction fl arbitrary: st)
  case Nil
  then show ?case by simp
next
  case (Cons f fl)
  obtain st' e where lb: "loop_body sroot fs st f = (st', e)"
    by (cases "loop_body sroot fs st f")
  have st': "\<forall>p \<in> set (opened st'). path_exists fs p"
    using loop_body_opened [OF Cons.prems, of sroot f] lb by simp
  show ?case
    using lb st' Cons.IH [OF st'] by (cases e) simp_all
qed

lemma for_loop_not_ok: "\<not> ok st \<Longrightarrow> \<not> ok (fst (for_loop sroot fs st fl))"
  using for_loop_ok_mono by blast

lemma loop_body_decodable:
  "fs (join sroot [f]) \<noteq> Undecodable \<Longrightarrow>
   snd (loop_body sroot fs st f) = None \<and>
   length (out (fst (loop_body sroot fs st f))) = Suc (length (out st)) \<and>
   (\<not> path_exists fs (join sroot [f]) \<longrightarrow>
      ''MISSING '' @ f \<in> set (out (fst (loop_body sroot fs st f))))"
  by (cases "fs (join sroot [f])") (simp_all add: loop_body_def Let_def path_exists_def check_def)

lemma for_loop_decodable:
  "\<forall>g \<in> set fl. fs (join sroot [g]) \<noteq> Undecodable \<Longrightarrow>
   snd (for_loop sroot fs st fl) = None \<and>
   length (out (fst (for_loop sroot fs st fl))) = length (out st) + length fl \<and>
   (\<forall>f \<in> set fl. \<not> path_exists fs (join sroot [f]) \<longrightarrow>
      ''MISSING '' @ f \<in> set (out (fst (for_loop sroot fs st fl))))"
proof (induction fl arbitrary: st)
  case Nil
  then show ?case by simp
next
  case (Cons f fl)
  obtain st' e where lb: "loop_body sroot fs st f = (st', e)"
    by (cases "loop_body sroot fs st f")
  have f: "fs (join sroot [f]) \<noteq> Undecodable"
    using Cons.prems by simp
  have e: "e = None" and len: "length (out st') = Suc (length (out st))"
    and miss: "\<not> path_exists fs (join sroot [f]) \<longrightarrow> ''MISSING '' @ f \<in> set (out st')"
    using loop_body_decodable [of fs sroot f st] f lb by simp_all
  have rest: "\<forall>g \<in> set fl. fs (join sroot [g]) \<noteq> Undecodable"
    using Cons.prems by simp
  note ih = Cons.IH [OF rest, of st']
  obtain ys where ys: "out (fst (for_loop sroot fs st' fl)) = out st' @ ys"
    using for_loop_out by blast
  have step: "for_loop sroot fs st (f # fl) = for_loop sroot fs st' fl"
    using lb e by simp
  have keep: "\<not> path_exists fs (join sroot [f]) \<longrightarrow>
      ''MISSING '' @ f \<in> set (out (fst (for_loop sroot fs st' fl)))"
    using miss ys by simp
  show ?case
    unfolding step using ih len keep by simp
qed

text \<open>Normalising a path that is already normalised changes nothing.\<close>

lemma foldl_norm_step_normalised:
  "normalised xs \<Longrightarrow> foldl norm_step acc xs = acc @ xs"
  by (induction xs arbitrary: acc) (simp_all add: normalised_def norm_step_def)

lemma normalised_butlast: "normalised xs \<Longrightarrow> normalised (butlast xs)"
  by (auto simp: normalised_def list_all_iff dest: in_set_butlastD)

lemma REPO_ROOT_normalised: "normalised file \<Longrightarrow> REPO_ROOT file = butlast (butlast file)"
  by (simp add: REPO_ROOT_def abspath_def join_def dirname_def norm_step_def
      foldl_norm_step_normalised normalised_butlast)

lemma header_lines:
  "take 2 (stdout (main file fs)) =
     [''Repo root: '' @ render (REPO_ROOT file), ''Sprite root: '' @ render (ROOT file)]"
proof -
  obtain ys where "out (fst (for_loop (ROOT file) fs (header file) FILES)) = out (header file) @ ys"
    using for_loop_out by blast
  then show ?thesis
    by (cases "for_loop (ROOT file) fs (header file) FILES")
      (auto simp: stdout_def main_def finish_def header_def split: option.splits)
qed

subsection \<open>The exit code\<close>

text \<open>
  Claim C1. The exit code of the process is 0 if and only if every one of the six files
  exists and \<^verbatim>\<open>check\<close> returns a result starting with \<^verbatim>\<open>OK\<close> for it; if any file is
  missing or any check returns a result starting with \<^verbatim>\<open>FAIL\<close>, the exit code is 1.
\<close>

theorem exit_code_zero_iff_all_ok:
  "(exit_code (main file fs) = 0 \<longleftrightarrow>
      (\<forall>f \<in> set FILES. path_exists fs (join (ROOT file) [f]) \<and>
         (\<exists>res. check fs (join (ROOT file) [f]) = Inr res \<and> startswith res ''OK''))) \<and>
   ((\<exists>f \<in> set FILES. \<not> path_exists fs (join (ROOT file) [f]) \<or>
         (\<exists>res. check fs (join (ROOT file) [f]) = Inr res \<and> startswith res ''FAIL''))
      \<longrightarrow> exit_code (main file fs) = 1) \<and>
   length FILES = 6"
proof -
  let ?pass = "\<lambda>f. path_exists fs (join (ROOT file) [f]) \<and>
         (\<exists>res. check fs (join (ROOT file) [f]) = Inr res \<and> startswith res ''OK'')"
  have code: "exit_code (main file fs) = (if \<forall>f \<in> set FILES. ?pass f then 0 else 1)"
    unfolding main_def exit_code_finish for_loop_passes
    by (simp add: header_def)
  have fail: "\<not> ?pass f"
    if "\<not> path_exists fs (join (ROOT file) [f]) \<or>
         (\<exists>res. check fs (join (ROOT file) [f]) = Inr res \<and> startswith res ''FAIL'')" for f
    using that by (auto simp: check_Inr check_rgba_ok_or_fail)
  have six: "length FILES = 6"
    by (simp add: FILES_def)
  have zero: "(exit_code (main file fs) = 0) = (\<forall>f \<in> set FILES. ?pass f)"
    using code by simp
  have one: "exit_code (main file fs) = 1"
    if bad: "\<exists>f \<in> set FILES. \<not> path_exists fs (join (ROOT file) [f]) \<or>
         (\<exists>res. check fs (join (ROOT file) [f]) = Inr res \<and> startswith res ''FAIL'')"
  proof -
    obtain f where "f \<in> set FILES" and "\<not> ?pass f"
      using bad fail by blast
    then have "\<not> (\<forall>f \<in> set FILES. ?pass f)"
      by blast
    then show ?thesis
      using code by simp
  qed
  show ?thesis
    using zero one six by blast
qed

theorem exit_code_zero_iff_all_ok_witness:
  "exit_code (main [''repo'', ''scripts'', ''validate_sprites.py'']
      (\<lambda>p. Sheet \<lparr>width = 1024, height = 256, alpha = replicate (1024 * 256) 0\<rparr>)) = 0 \<and>
   exit_code (main [''repo'', ''scripts'', ''validate_sprites.py''] (\<lambda>p. Absent)) = 1"
  using exit_code_zero_iff_all_ok [of "[''repo'', ''scripts'', ''validate_sprites.py'']"
      "\<lambda>p. Sheet \<lparr>width = 1024, height = 256, alpha = replicate (1024 * 256) 0\<rparr>"]
    exit_code_zero_iff_all_ok [of "[''repo'', ''scripts'', ''validate_sprites.py'']" "\<lambda>p. Absent"]
  by (auto simp: FILES_def path_exists_def check_def check_rgba_sized startswith_def)

subsection \<open>The report header\<close>

text \<open>
  Claim C6. The sprite root is a fixed offset from the script's own location: the
  repository root is two levels up from the script file (its directory's parent), the
  sprite root is the repository root joined with
  \<^verbatim>\<open>public/lilypad-leap/sprites/toad/sheets/v1\<close>, and the first two lines of the report
  print the two paths. Both are functions of the script's path alone.
\<close>

theorem sprite_root_resolution:
  "normalised file \<Longrightarrow>
   REPO_ROOT file = butlast (butlast file) \<and>
   ROOT file = butlast (butlast file)
      @ [''public'', ''lilypad-leap'', ''sprites'', ''toad'', ''sheets'', ''v1''] \<and>
   take 2 (stdout (main file fs)) =
     [''Repo root: '' @ render (REPO_ROOT file), ''Sprite root: '' @ render (ROOT file)]"
  by (simp add: REPO_ROOT_normalised ROOT_def join_def header_lines)

theorem sprite_root_resolution_witness:
  "REPO_ROOT [''home'', ''dev'', ''lilypad-leap'', ''scripts'', ''validate_sprites.py'']
     = [''home'', ''dev'', ''lilypad-leap''] \<and>
   ROOT [''home'', ''dev'', ''lilypad-leap'', ''scripts'', ''validate_sprites.py'']
     = [''home'', ''dev'', ''lilypad-leap'', ''public'', ''lilypad-leap'', ''sprites'', ''toad'',
        ''sheets'', ''v1''] \<and>
   take 2 (stdout (main [''home'', ''dev'', ''lilypad-leap'', ''scripts'', ''validate_sprites.py'']
      (\<lambda>p. Absent))) =
     [''Repo root: /home/dev/lilypad-leap'',
      ''Sprite root: /home/dev/lilypad-leap/public/lilypad-leap/sprites/toad/sheets/v1'']"
  using sprite_root_resolution [of "[''home'', ''dev'', ''lilypad-leap'', ''scripts'', ''validate_sprites.py'']"
      "\<lambda>p. Absent"]
  by (simp add: normalised_def render_def)

subsection \<open>Missing files\<close>

text \<open>
  Claim C7. When the path of a filename does not exist, the iteration for that filename
  prints \<^verbatim>\<open>MISSING <filename>\<close>, leaves the list of opened files as it is, sets the flag
  to false, and the loop goes on with the remaining filenames in their order. For the
  whole run: a missing file of the list is never opened and the exit code is 1; when the
  run reaches it after the filenames \<open>pre\<close>, the rest of the run is the loop over the
  filenames after it; and when no file of the list is undecodable, the report holds its
  \<^verbatim>\<open>MISSING\<close> line and one line for each of the six filenames after the three header
  lines.
\<close>

theorem missing_file_reported:
  assumes "\<not> path_exists fs (join (ROOT file) [f])"
  shows
    "for_loop (ROOT file) fs st (f # rest) =
       for_loop (ROOT file) fs (st\<lparr>out := out st @ [''MISSING '' @ f], ok := False\<rparr>) rest \<and>
     (FILES = pre @ f # rest \<and> for_loop (ROOT file) fs (header file) pre = (st, None) \<longrightarrow>
        main file fs =
          finish (for_loop (ROOT file) fs
            (st\<lparr>out := out st @ [''MISSING '' @ f], ok := False\<rparr>) rest)) \<and>
     (f \<in> set FILES \<longrightarrow>
        join (ROOT file) [f] \<notin> set (opened (fst (main file fs))) \<and>
        exit_code (main file fs) = 1) \<and>
     (f \<in> set FILES \<and> (\<forall>g \<in> set FILES. fs (join (ROOT file) [g]) \<noteq> Undecodable) \<longrightarrow>
        ''MISSING '' @ f \<in> set (stdout (main file fs)) \<and>
        length (stdout (main file fs)) = 3 + length FILES)"
proof -
  let ?R = "ROOT file"
  have step: "for_loop ?R fs st (f # rest) =
       for_loop ?R fs (st\<lparr>out := out st @ [''MISSING '' @ f], ok := False\<rparr>) rest"
    for st rest
    by (simp add: loop_body_missing [OF assms])
  have whole: "main file fs =
          finish (for_loop ?R fs (st\<lparr>out := out st @ [''MISSING '' @ f], ok := False\<rparr>) rest)"
    if "FILES = pre @ f # rest" and "for_loop ?R fs (header file) pre = (st, None)"
  proof -
    have "for_loop ?R fs (header file) FILES = for_loop ?R fs st (f # rest)"
      by (simp only: that for_loop_append prod.case option.case)
    then show ?thesis
      by (simp only: main_def step)
  qed
  have fst_main: "fst (main file fs) = fst (for_loop ?R fs (header file) FILES)"
    by (cases "for_loop ?R fs (header file) FILES")
      (simp add: main_def finish_def split: option.splits)
  have "\<forall>p \<in> set (opened (fst (main file fs))). path_exists fs p"
    unfolding fst_main by (rule for_loop_opened) (simp add: header_def)
  then have closed: "join ?R [f] \<notin> set (opened (fst (main file fs)))"
    using assms by blast
  have code: "exit_code (main file fs) = 1" if "f \<in> set FILES"
  proof -
    have "\<not> (snd (for_loop ?R fs (header file) FILES) = None \<and>
        ok (fst (for_loop ?R fs (header file) FILES)))"
      unfolding for_loop_passes using that assms by blast
    then show ?thesis
      by (simp add: main_def exit_code_finish)
  qed
  have report: "''MISSING '' @ f \<in> set (stdout (main file fs)) \<and>
        length (stdout (main file fs)) = 3 + length FILES"
    if "f \<in> set FILES" and "\<forall>g \<in> set FILES. fs (join ?R [g]) \<noteq> Undecodable"
    using for_loop_decodable [OF that(2), of "header file"] that(1) assms
    by (simp add: stdout_def fst_main header_def)
  show ?thesis
    using step whole closed code report by blast
qed

theorem missing_file_reported_witness:
  "\<not> path_exists
       (\<lambda>p. if last p = ''toad_idle_right_v1.png'' then Absent
            else Sheet \<lparr>width = 1024, height = 256, alpha = replicate (1024 * 256) 0\<rparr>)
       (join (ROOT [''repo'', ''scripts'', ''validate_sprites.py'']) [''toad_idle_right_v1.png'']) \<and>
   join (ROOT [''repo'', ''scripts'', ''validate_sprites.py'']) [''toad_idle_right_v1.png'']
     \<notin> set (opened (fst (main [''repo'', ''scripts'', ''validate_sprites.py'']
       (\<lambda>p. if last p = ''toad_idle_right_v1.png'' then Absent
            else Sheet \<lparr>width = 1024, height = 256, alpha = replicate (1024 * 256) 0\<rparr>)))) \<and>
   exit_code (main [''repo'', ''scripts'', ''validate_sprites.py'']
       (\<lambda>p. if last p = ''toad_idle_right_v1.png'' then Absent
            else Sheet \<lparr>width = 1024, height = 256, alpha = replicate (1024 * 256) 0\<rparr>)) = 1 \<and>
   ''MISSING toad_idle_right_v1.png''
     \<in> set (stdout (main [''repo'', ''scripts'', ''validate_sprites.py'']
       (\<lambda>p. if last p = ''toad_idle_right_v1.png'' then Absent
            else Sheet \<lparr>width = 1024, height = 256, alpha = replicate (1024 * 256) 0\<rparr>))) \<and>
   length (stdout (main [''repo'', ''scripts'', ''validate_sprites.py'']
       (\<lambda>p. if last p = ''toad_idle_right_v1.png'' then Absent
            else Sheet \<lparr>width = 1024, height = 256, alpha = replicate (1024 * 256) 0\<rparr>))) = 9"
proof -
  let ?file = "[''repo'', ''scripts'', ''validate_sprites.py'']"
  let ?fs = "\<lambda>p. if last p = ''toad_idle_right_v1.png'' then Absent
            else Sheet \<lparr>width = 1024, height = 256, alpha = replicate (1024 * 256) 0\<rparr>"
  have missing: "\<not> path_exists ?fs (join (ROOT ?file) [''toad_idle_right_v1.png''])"
    by (simp add: path_exists_def join_def)
  have listed: "''toad_idle_right_v1.png'' \<in> set FILES"
    by (simp add: FILES_def)
  have decodable: "\<forall>g \<in> set FILES. ?fs (join (ROOT ?file) [g]) \<noteq> Undecodable"
    by (simp add: join_def)
  have six: "length FILES = 6"
    by (simp add: FILES_def)
  show ?thesis
    using missing_file_reported [OF missing, where st = "header ?file" and pre = "[]" and rest = "tl FILES"]
      missing listed decodable six
    by simp
qed

subsection \<open>The flag \<^verbatim>\<open>ok\<close>\<close>

text \<open>
  Claim C8. The flag starts true; an iteration never turns it from false to true; once it
  is false it is false at the end of the loop, whatever the remaining files are, and the
  exit code is 1. So a failure seen after any prefix of the file list makes the run fail.
\<close>

theorem ok_flag_monotonic:
  "ok (header file) \<and>
   (ok (fst (loop_body sroot fs st f)) \<longrightarrow> ok st) \<and>
   (\<not> ok st \<longrightarrow>
      \<not> ok (fst (for_loop sroot fs st fl)) \<and> exit_code (finish (for_loop sroot fs st fl)) = 1) \<and>
   (FILES = pre @ post \<and> \<not> ok (fst (for_loop (ROOT file) fs (header file) pre)) \<longrightarrow>
      exit_code (main file fs) = 1)"
proof -
  have start: "ok (header file)"
    by (simp add: header_def)
  have stay: "exit_code (finish (for_loop sroot fs st fl)) = 1" if "\<not> ok st" for sroot st fl
    using for_loop_not_ok [OF that, of sroot fs fl] by (simp add: exit_code_finish)
  have whole: "exit_code (main file fs) = 1"
    if split: "FILES = pre @ post" and bad: "\<not> ok (fst (for_loop (ROOT file) fs (header file) pre))"
  proof -
    obtain st' e where pre: "for_loop (ROOT file) fs (header file) pre = (st', e)"
      by (cases "for_loop (ROOT file) fs (header file) pre")
    show ?thesis
    proof (cases e)
      case None
      then show ?thesis
        using pre bad stay [of st' "ROOT file" post]
        by (simp add: main_def split for_loop_append)
    next
      case (Some a)
      then show ?thesis
        using pre by (simp add: main_def split for_loop_append exit_code_finish)
    qed
  qed
  show ?thesis
    using start loop_body_ok_mono for_loop_not_ok stay whole by blast
qed

theorem ok_flag_monotonic_witness:
  "ok (header [''repo'', ''scripts'', ''validate_sprites.py'']) \<and>
   \<not> ok (fst (for_loop (ROOT [''repo'', ''scripts'', ''validate_sprites.py''])
       (\<lambda>p. if last p = ''toad_land_right_v1.png'' then Absent
            else Sheet \<lparr>width = 1024, height = 256, alpha = replicate (1024 * 256) 0\<rparr>)
       (header [''repo'', ''scripts'', ''validate_sprites.py''])
       [''toad_idle_right_v1.png'', ''toad_jump_right_v1.png'', ''toad_land_right_v1.png''])) \<and>
   exit_code (main [''repo'', ''scripts'', ''validate_sprites.py'']
       (\<lambda>p. if last p = ''toad_land_right_v1.png'' then Absent
            else Sheet \<lparr>width = 1024, height = 256, alpha = replicate (1024 * 256) 0\<rparr>)) = 1"
proof -
  let ?file = "[''repo'', ''scripts'', ''validate_sprites.py'']"
  let ?fs = "\<lambda>p. if last p = ''toad_land_right_v1.png'' then Absent
            else Sheet \<lparr>width = 1024, height = 256, alpha = replicate (1024 * 256) 0\<rparr>"
  let ?pre = "[''toad_idle_right_v1.png'', ''toad_jump_right_v1.png'', ''toad_land_right_v1.png'']"
  let ?post = "[''toad_cashout_right_v1.png'', ''toad_jackpot_right_v1.png'', ''toad_dead_right_v1.png'']"
  have split: "FILES = ?pre @ ?post"
    by (simp add: FILES_def)
  have seen: "\<not> ok (fst (for_loop (ROOT ?file) ?fs (header ?file) ?pre))"
    by (simp add: loop_body_def Let_def path_exists_def check_def join_def)
  show ?thesis
    using ok_flag_monotonic [of ?file "ROOT ?file" ?fs "fst (for_loop (ROOT ?file) ?fs (header ?file) ?pre)"
        "''toad_cashout_right_v1.png''" ?post ?pre ?post]
      split seen
    by simp
qed

end
